theory Spec2Isabelle
  imports Main "HOL-Library.Sublist"
begin

section \<open>Customer support manager: data model\<close>

text \<open>
  The development follows \<^verbatim>\<open>src/customer_support.py\<close>, class
  \<^verbatim>\<open>CustomerSupportManager\<close>. Python dictionaries with a fixed set of keys are
  records; a key that the code adds later (\<^verbatim>\<open>resolved_by\<close>, \<^verbatim>\<open>updated_by\<close>,
  \<^verbatim>\<open>escalated\<close>) is an option field that is \<open>None\<close> while the key is absent.
  Python integers are unbounded, hence \<open>int\<close>. A \<^verbatim>\<open>datetime\<close> is the number of
  microseconds it denotes; the ISO string the code stores is a bijective rendering of
  that value (\<^verbatim>\<open>isoformat\<close> / \<^verbatim>\<open>fromisoformat\<close>). Each operation reads the
  clock; the reading is a parameter \<open>now\<close>, and the successive readings inside one call
  are taken to be the same instant. Text is a list of UTF-8 bytes.
\<close>

type_synonym time = int

record ticket_response =
  response_id :: int
  responder_id :: int
  response :: string
  is_admin :: bool
  timestamp :: time

record ticket =
  ticket_id :: int
  user_id :: int
  username :: string
  category :: string
  message :: string
  status :: string
  priority :: string
  created_at :: time
  updated_at :: time
  responses :: "ticket_response list"
  assigned_to :: "int option"
  resolution :: "string option"
  resolved_by :: "int option"
  updated_by :: "int option"
  escalated :: "bool option"

record ticket_store =
  tickets :: "ticket list"
  next_ticket_id :: int
  active_tickets :: int
  resolved_tickets :: int

text \<open>
  The statistics document. Its key \<^verbatim>\<open>resolved_tickets\<close> is the field
  \<open>stats_resolved_tickets\<close> here, the name being taken by the ticket store. The keys of
  \<^verbatim>\<open>daily_tickets\<close> are calendar dates, represented by their day number.
\<close>

record support_stats_doc =
  total_tickets :: int
  stats_resolved_tickets :: int
  avg_response_time :: int
  customer_satisfaction :: int
  daily_tickets :: "int \<rightharpoonup> int"
  category_stats :: "string \<rightharpoonup> int"

text \<open>
  Every call of \<^verbatim>\<open>bot.send_message\<close> is recorded, in order, as a notification:
  the kind of notice, the recipient and the ticket it is about. A delivery failure is
  caught where the message is sent and changes nothing else, so the log of attempts is
  what the operations determine.
\<close>

datatype notification =
  NewTicket int int
  | TicketResponse int int int
  | TicketResolved int int
  | StatusUpdate int int string
  | TicketEscalated int int

record manager =
  support_tickets :: ticket_store
  support_stats :: support_stats_doc
  admin_users :: "int list"
  sent :: "notification list"

subsection \<open>Loading\<close>

text \<open>
  \<^verbatim>\<open>load_support_tickets\<close> and \<^verbatim>\<open>load_support_stats\<close>: the argument is the content
  of the file, \<open>None\<close> when opening it raises \<^verbatim>\<open>FileNotFoundError\<close>.
\<close>

definition load_support_tickets :: "ticket_store option \<Rightarrow> ticket_store" where
  "load_support_tickets file =
     (case file of
        Some doc \<Rightarrow> doc
      | None \<Rightarrow> \<lparr>tickets = [], next_ticket_id = 1, active_tickets = 0, resolved_tickets = 0\<rparr>)"

definition load_support_stats :: "support_stats_doc option \<Rightarrow> support_stats_doc" where
  "load_support_stats file =
     (case file of
        Some doc \<Rightarrow> doc
      | None \<Rightarrow> \<lparr>total_tickets = 0, stats_resolved_tickets = 0, avg_response_time = 0,
                 customer_satisfaction = 0, daily_tickets = Map.empty,
                 category_stats = Map.empty\<rparr>)"

text \<open>The manager constructed when neither file exists, for a given admin roster.\<close>

definition initial_manager :: "int list \<Rightarrow> manager" where
  "initial_manager admins =
     \<lparr>support_tickets = load_support_tickets None, support_stats = load_support_stats None,
      admin_users = admins, sent = []\<rparr>"

section \<open>Ticket lifecycle\<close>

definition day_of :: "time \<Rightarrow> int" where
  "day_of now = now div 86400000000"

text \<open>\<^verbatim>\<open>if k not in d: d[k] = 0\<close> followed by \<^verbatim>\<open>d[k] += 1\<close>.\<close>

definition bump :: "('k \<rightharpoonup> int) \<Rightarrow> 'k \<Rightarrow> ('k \<rightharpoonup> int)" where
  "bump d k = d(k \<mapsto> (case d k of None \<Rightarrow> 0 | Some c \<Rightarrow> c) + 1)"

definition create_support_ticket ::
  "manager \<Rightarrow> int \<Rightarrow> string \<Rightarrow> string \<Rightarrow> string \<Rightarrow> time \<Rightarrow> int \<times> manager" where
  "create_support_ticket s uid uname cat msg now =
     (let st = support_tickets s;
          ss = support_stats s;
          tid = next_ticket_id st;
          ticket = \<lparr>ticket_id = tid, user_id = uid, username = uname, category = cat,
                    message = msg, status = ''open'', priority = ''medium'',
                    created_at = now, updated_at = now, responses = [],
                    assigned_to = None, resolution = None, resolved_by = None,
                    updated_by = None, escalated = None\<rparr>;
          st' = st\<lparr>tickets := tickets st @ [ticket],
                   next_ticket_id := next_ticket_id st + 1,
                   active_tickets := active_tickets st + 1\<rparr>;
          ss' = ss\<lparr>total_tickets := total_tickets ss + 1,
                   daily_tickets := bump (daily_tickets ss) (day_of now),
                   category_stats := bump (category_stats ss) cat\<rparr>
      in (tid, s\<lparr>support_tickets := st', support_stats := ss',
                 sent := sent s @ map (\<lambda>a. NewTicket a tid) (admin_users s)\<rparr>))"

definition get_user_tickets :: "manager \<Rightarrow> int \<Rightarrow> ticket list" where
  "get_user_tickets s uid = filter (\<lambda>t. user_id t = uid) (tickets (support_tickets s))"

text \<open>
  The first ticket of the collection with the given id, \<open>None\<close> when there is none. A
  ticket is a dictionary with keys, hence true in \<^verbatim>\<open>if not ticket\<close>: the callers take
  their early return exactly when the result is \<open>None\<close>.
\<close>

definition get_ticket_by_id :: "manager \<Rightarrow> int \<Rightarrow> ticket option" where
  "get_ticket_by_id s tid = find (\<lambda>t. ticket_id t = tid) (tickets (support_tickets s))"

text \<open>
  The operations mutate the dictionary that \<^verbatim>\<open>get_ticket_by_id\<close> returned, which is
  the first element of the collection with that id: \<open>modify_ticket\<close> rewrites that
  element in place and no other.
\<close>

fun modify_ticket :: "int \<Rightarrow> (ticket \<Rightarrow> ticket) \<Rightarrow> ticket list \<Rightarrow> ticket list" where
  "modify_ticket tid f [] = []"
| "modify_ticket tid f (t # ts) =
     (if ticket_id t = tid then f t # ts else t # modify_ticket tid f ts)"

definition add_ticket_response ::
  "manager \<Rightarrow> int \<Rightarrow> int \<Rightarrow> string \<Rightarrow> bool \<Rightarrow> time \<Rightarrow> bool \<times> manager" where
  "add_ticket_response s tid responder text admin now =
     (case get_ticket_by_id s tid of
        None \<Rightarrow> (False, s)
      | Some ticket \<Rightarrow>
          (let st = support_tickets s;
               response_data = \<lparr>response_id = int (length (responses ticket)) + 1,
                                 responder_id = responder, response = text,
                                 is_admin = admin, timestamp = now\<rparr>;
               st' = st\<lparr>tickets := modify_ticket tid
                         (\<lambda>t. t\<lparr>responses := responses t @ [response_data],
                                 updated_at := now\<rparr>) (tickets st)\<rparr>
           in (True, s\<lparr>support_tickets := st',
                        sent := sent s @
                          (if admin
                           then [TicketResponse (user_id ticket) (ticket_id ticket)
                                   (response_id response_data)]
                           else [])\<rparr>)))"

definition resolve_ticket ::
  "manager \<Rightarrow> int \<Rightarrow> string \<Rightarrow> int \<Rightarrow> time \<Rightarrow> bool \<times> manager" where
  "resolve_ticket s tid res admin_id now =
     (case get_ticket_by_id s tid of
        None \<Rightarrow> (False, s)
      | Some ticket \<Rightarrow>
          (let st = support_tickets s;
               ss = support_stats s;
               st' = st\<lparr>tickets := modify_ticket tid
                         (\<lambda>t. t\<lparr>status := ''resolved'', resolution := Some res,
                                 updated_at := now, resolved_by := Some admin_id\<rparr>)
                         (tickets st),
                        active_tickets := active_tickets st - 1,
                        resolved_tickets := resolved_tickets st + 1\<rparr>;
               ss' = ss\<lparr>stats_resolved_tickets := stats_resolved_tickets ss + 1\<rparr>
           in (True, s\<lparr>support_tickets := st', support_stats := ss',
                        sent := sent s @
                          [TicketResolved (user_id ticket) (ticket_id ticket)]\<rparr>)))"

definition update_ticket_status ::
  "manager \<Rightarrow> int \<Rightarrow> string \<Rightarrow> int \<Rightarrow> string option \<Rightarrow> time \<Rightarrow> bool \<times> manager" where
  "update_ticket_status s tid new_status admin_id msg now =
     (case get_ticket_by_id s tid of
        None \<Rightarrow> (False, s)
      | Some ticket \<Rightarrow>
          (let st = support_tickets s;
               old_status = status ticket;
               active' =
                 (if old_status = ''open'' \<and> new_status \<noteq> ''open''
                  then max 0 (active_tickets st - 1)
                  else if old_status \<noteq> ''open'' \<and> new_status = ''open''
                  then active_tickets st + 1
                  else active_tickets st);
               st' = st\<lparr>tickets := modify_ticket tid
                         (\<lambda>t. t\<lparr>status := new_status, updated_at := now,
                                 updated_by := Some admin_id\<rparr>) (tickets st),
                        active_tickets := active'\<rparr>
           in (True, s\<lparr>support_tickets := st',
                        sent := sent s @
                          [StatusUpdate (user_id ticket) (ticket_id ticket) new_status]\<rparr>)))"

section \<open>Escalation monitor\<close>

definition escalate_ticket :: "manager \<Rightarrow> int \<Rightarrow> time \<Rightarrow> manager" where
  "escalate_ticket s tid now =
     (case get_ticket_by_id s tid of
        None \<Rightarrow> s
      | Some ticket \<Rightarrow>
          (let st = support_tickets s;
               st' = st\<lparr>tickets := modify_ticket tid
                         (\<lambda>t. t\<lparr>priority := ''high'', escalated := Some True,
                                 updated_at := now\<rparr>) (tickets st)\<rparr>
           in s\<lparr>support_tickets := st',
                 sent := sent s @
                   map (\<lambda>a. TicketEscalated a (ticket_id ticket)) (admin_users s)\<rparr>))"

definition day_us :: int where
  "day_us = 24 * 3600 * 1000000"

text \<open>
  One scan of \<^verbatim>\<open>monitor_support\<close>, the body of its \<^verbatim>\<open>while True\<close> up to the sleep.
  \<^verbatim>\<open>open_tickets\<close> is a list of references into the collection, taken once: the loop
  visits the positions that held an open ticket at the start and reads each ticket as it
  is when visited. A stored \<open>created_at\<close> is a timestamp, so parsing it does not raise,
  and a failed delivery is caught inside \<open>escalate_ticket\<close>: the scan runs to its end.
\<close>

definition needs_escalation :: "time \<Rightarrow> ticket \<Rightarrow> bool" where
  "needs_escalation now t = (now - created_at t > day_us \<and> escalated t \<noteq> Some True)"

fun monitor_loop :: "nat list \<Rightarrow> time \<Rightarrow> manager \<Rightarrow> manager" where
  "monitor_loop [] now s = s"
| "monitor_loop (i # rest) now s =
     (let t = tickets (support_tickets s) ! i
      in monitor_loop rest now
           (if needs_escalation now t then escalate_ticket s (ticket_id t) now else s))"

definition open_positions :: "ticket list \<Rightarrow> nat list" where
  "open_positions ts = filter (\<lambda>i. status (ts ! i) = ''open'') [0..<length ts]"

definition monitor_pass :: "manager \<Rightarrow> time \<Rightarrow> manager" where
  "monitor_pass s now = monitor_loop (open_positions (tickets (support_tickets s))) now s"

section \<open>Auto-response classifier\<close>

text \<open>The built-in response texts of \<^verbatim>\<open>self.auto_responses\<close>.\<close>

definition greeting_response :: string where
  "greeting_response =
    [CHR 0xF0, CHR 0x9F, CHR 0x91, CHR 0x8B] @ '' **Hello! Welcome to our support!**'' @
    [CHR 0x0A, CHR 0x0A] @ ''How can I help you today?'' @ [CHR 0x0A, CHR 0x0A] @
    ''**Quick Help:**'' @ [CHR 0x0A, CHR 0xE2, CHR 0x80, CHR 0xA2] @ '' '' @
    [CHR 0xF0, CHR 0x9F, CHR 0x93, CHR 0xA6] @ '' Order issues'' @
    [CHR 0x0A, CHR 0xE2, CHR 0x80, CHR 0xA2] @ '' '' @
    [CHR 0xF0, CHR 0x9F, CHR 0x92, CHR 0xB3] @ '' Payment problems'' @
    [CHR 0x0A, CHR 0xE2, CHR 0x80, CHR 0xA2] @ '' '' @
    [CHR 0xF0, CHR 0x9F, CHR 0x9B, CHR 0x8D, CHR 0xEF, CHR 0xB8, CHR 0x8F] @
    '' Product questions'' @ [CHR 0x0A, CHR 0xE2, CHR 0x80, CHR 0xA2] @ '' '' @
    [CHR 0xF0, CHR 0x9F, CHR 0x94, CHR 0xA7] @ '' Technical support'' @
    [CHR 0x0A, CHR 0x0A] @ ''Type your question or use /support for more options!''"

definition order_status_response :: string where
  "order_status_response =
    [CHR 0xF0, CHR 0x9F, CHR 0x93, CHR 0xA6] @ '' **Order Status Help**'' @
    [CHR 0x0A, CHR 0x0A] @ ''To check your order status:'' @ [CHR 0x0A] @
    ''1. Use /orders command'' @ [CHR 0x0A] @ ''2. Or click '' @
    [CHR 0x27, CHR 0xF0, CHR 0x9F, CHR 0x93, CHR 0xA6] @ '' Orders'' @ [CHR 0x27] @
    '' in main menu'' @ [CHR 0x0A] @ ''3. Enter your order ID for tracking'' @
    [CHR 0x0A, CHR 0x0A] @ ''Need more help? Create a support ticket!''"

definition payment_help_response :: string where
  "payment_help_response =
    [CHR 0xF0, CHR 0x9F, CHR 0x92, CHR 0xB3] @ '' **Payment Help**'' @
    [CHR 0x0A, CHR 0x0A] @ ''We accept:'' @ [CHR 0x0A, CHR 0xE2, CHR 0x80, CHR 0xA2] @
    '' Bitcoin (BTC)'' @ [CHR 0x0A, CHR 0xE2, CHR 0x80, CHR 0xA2] @ '' Monero (XMR)'' @
    [CHR 0x0A, CHR 0x0A] @ ''Payment process:'' @ [CHR 0x0A] @ ''1. Add items to cart'' @
    [CHR 0x0A] @ ''2. Proceed to checkout'' @ [CHR 0x0A] @
    ''3. Send exact amount to provided wallet'' @ [CHR 0x0A] @ ''4. Confirm payment'' @
    [CHR 0x0A, CHR 0x0A] @ ''Need help? Create a support ticket!''"

definition product_info_response :: string where
  "product_info_response =
    [CHR 0xF0, CHR 0x9F, CHR 0x9B, CHR 0x8D, CHR 0xEF, CHR 0xB8, CHR 0x8F] @
    '' **Product Information**'' @ [CHR 0x0A, CHR 0x0A] @ ''To view products:'' @
    [CHR 0x0A] @ ''1. Click '' @
    [CHR 0x27, CHR 0xF0, CHR 0x9F, CHR 0x9B, CHR 0x8D, CHR 0xEF, CHR 0xB8, CHR 0x8F] @
    '' Products'' @ [CHR 0x27] @ '' in main menu'' @ [CHR 0x0A] @
    ''2. Select your country'' @ [CHR 0x0A] @ ''3. Browse categories'' @ [CHR 0x0A] @
    ''4. View product details'' @ [CHR 0x0A, CHR 0x0A] @
    ''Need specific info? Create a support ticket!''"

definition shipping_delivery_response :: string where
  "shipping_delivery_response =
    [CHR 0xF0, CHR 0x9F, CHR 0x9A, CHR 0x9A] @ '' **Shipping & Delivery**'' @
    [CHR 0x0A, CHR 0x0A] @ ''**Delivery Times:**'' @
    [CHR 0x0A, CHR 0xE2, CHR 0x80, CHR 0xA2] @ '' EU: 3-7 days'' @
    [CHR 0x0A, CHR 0xE2, CHR 0x80, CHR 0xA2] @ '' USA: 5-10 days'' @
    [CHR 0x0A, CHR 0xE2, CHR 0x80, CHR 0xA2] @ '' Worldwide: 7-14 days'' @
    [CHR 0x0A, CHR 0x0A] @ ''**Shipping Costs:**'' @
    [CHR 0x0A, CHR 0xE2, CHR 0x80, CHR 0xA2] @ '' Varies by country'' @
    [CHR 0x0A, CHR 0xE2, CHR 0x80, CHR 0xA2] @ '' Check delivery options at checkout'' @
    [CHR 0x0A, CHR 0x0A] @ ''Need specific info? Create a support ticket!''"

definition refund_return_response :: string where
  "refund_return_response =
    [CHR 0xF0, CHR 0x9F, CHR 0x92, CHR 0xB0] @ '' **Refund & Return Policy**'' @
    [CHR 0x0A, CHR 0x0A] @ ''**Refund Policy:**'' @
    [CHR 0x0A, CHR 0xE2, CHR 0x80, CHR 0xA2] @ '' Contact support within 7 days'' @
    [CHR 0x0A, CHR 0xE2, CHR 0x80, CHR 0xA2] @ '' Provide order details'' @
    [CHR 0x0A, CHR 0xE2, CHR 0x80, CHR 0xA2] @
    '' Refunds processed within 3-5 business days'' @ [CHR 0x0A, CHR 0x0A] @
    ''**Return Process:**'' @ [CHR 0x0A, CHR 0xE2, CHR 0x80, CHR 0xA2] @
    '' Create support ticket'' @ [CHR 0x0A, CHR 0xE2, CHR 0x80, CHR 0xA2] @
    '' Explain reason for return'' @ [CHR 0x0A, CHR 0xE2, CHR 0x80, CHR 0xA2] @
    '' Follow instructions from support team'' @ [CHR 0x0A, CHR 0x0A] @
    ''Need help? Create a support ticket!''"

definition technical_issues_response :: string where
  "technical_issues_response =
    [CHR 0xF0, CHR 0x9F, CHR 0x94, CHR 0xA7] @ '' **Technical Support**'' @
    [CHR 0x0A, CHR 0x0A] @ ''For technical issues:'' @ [CHR 0x0A] @
    ''1. Try restarting your session ('' @ [CHR 0xF0, CHR 0x9F, CHR 0x94, CHR 0x84] @
    '' Restart Session)'' @ [CHR 0x0A] @ ''2. Clear your cart and try again'' @ [CHR 0x0A] @
    ''3. If problem persists, create a support ticket'' @ [CHR 0x0A, CHR 0x0A] @ ''We'' @
    [CHR 0x27] @ ''ll help you resolve it quickly!''"

definition general_help_response :: string where
  "general_help_response =
    [CHR 0xE2, CHR 0x9D, CHR 0x93] @ '' **General Help**'' @ [CHR 0x0A, CHR 0x0A] @
    ''Quick help:'' @ [CHR 0x0A, CHR 0xE2, CHR 0x80, CHR 0xA2] @ '' /start - Main menu'' @
    [CHR 0x0A, CHR 0xE2, CHR 0x80, CHR 0xA2] @ '' /orders - Check orders'' @
    [CHR 0x0A, CHR 0xE2, CHR 0x80, CHR 0xA2] @ '' /notifications - Manage notifications'' @
    [CHR 0x0A, CHR 0xE2, CHR 0x80, CHR 0xA2] @ '' /support - Get help'' @
    [CHR 0x0A, CHR 0x0A] @ ''For specific questions, create a support ticket!''"

text \<open>
  The table is a dictionary literal, iterated in the order it is written: an
  association list of category, keywords and response.
\<close>

definition auto_responses :: "(string \<times> string list \<times> string) list" where
  "auto_responses =
    [(''greeting'',
        [''hello'', ''hi'', ''hey'', ''good morning'', ''good afternoon'', ''good evening'',
         ''namaste'', ''salam'', ''assalamu alaikum'', ''kemon achen'', ''ki obostha''],
        greeting_response),
     (''order_status'',
        [''order'', ''status'', ''tracking'', ''delivery'', ''shipped'', ''where is my order'',
         ''order kothay'', ''delivery kobe hobe'', ''tracking number''],
        order_status_response),
     (''payment_help'',
        [''payment'', ''pay'', ''crypto'', ''bitcoin'', ''xmr'', ''wallet'', ''how to pay'',
         ''payment kivabe korbo'', ''bitcoin address'', ''monero address'', ''payment method''],
        payment_help_response),
     (''product_info'',
        [''product'', ''price'', ''stock'', ''available'', ''quantity'', ''product list'',
         ''ki ki ache'', ''price koto'', ''stock ache ki'', ''product details''],
        product_info_response),
     (''shipping_delivery'',
        [''shipping'', ''delivery'', ''how long'', ''delivery time'', ''shipping cost'',
         ''delivery kobe hobe'', ''shipping koto taka'', ''delivery time koto''],
        shipping_delivery_response),
     (''refund_return'',
        [''refund'', ''return'', ''money back'', ''refund chai'', ''return korbo'',
         ''money back chai''],
        refund_return_response),
     (''technical_issues'',
        [''error'', ''bug'', ''not working'', ''problem'', ''issue'', ''broken''],
        technical_issues_response),
     (''general_help'',
        [''help'', ''how'', ''what'', ''where'', ''when''],
        general_help_response)]"

definition human_agent_keywords :: "string list" where
  "human_agent_keywords =
    [''human'', ''agent'', ''person'', ''staff'', ''representative'',
     ''manager'', ''supervisor'', ''live chat'', ''real person'',
     ''talk to someone'', ''speak to'', ''connect me'', ''transfer me'']"

definition key_map :: "(string \<times> string) list" where
  "key_map =
    [(''greeting'', ''support.auto.greeting''),
     (''order_status'', ''support.auto.order_status''),
     (''payment_help'', ''support.auto.payment_help''),
     (''product_info'', ''support.auto.product_info''),
     (''shipping_delivery'', ''support.auto.shipping''),
     (''refund_return'', ''support.auto.refund''),
     (''technical_issues'', ''support.auto.technical''),
     (''general_help'', ''support.auto.general'')]"

text \<open>
  \<^verbatim>\<open>for keyword in keywords: if keyword in message_lower: return ...\<close>: whether the
  loop reaches its \<^verbatim>\<open>return\<close>. Python's \<^verbatim>\<open>in\<close> on strings is the substring test.
\<close>

fun any_keyword_in :: "string list \<Rightarrow> string \<Rightarrow> bool" where
  "any_keyword_in [] m = False"
| "any_keyword_in (keyword # rest) m = (if sublist keyword m then True else any_keyword_in rest m)"

text \<open>
  The \<^verbatim>\<open>try\<close> block around the localized lookup calls code outside this module
  (\<^verbatim>\<open>load_users\<close>, \<^verbatim>\<open>normalize_lang\<close>, \<^verbatim>\<open>t\<close>). Its outcome for a translation
  key is the parameter \<open>t_lookup\<close>: \<open>Some txt\<close> when \<^verbatim>\<open>t(lang, key)\<close> is reached and
  returns \<open>txt\<close>, \<open>None\<close> when anything in the block raises, in which case the built-in
  response of the table is returned.
\<close>

definition localized_response ::
  "(string \<Rightarrow> string option) \<Rightarrow> string \<Rightarrow> string \<Rightarrow> string" where
  "localized_response t_lookup cat default_response =
     (case map_of key_map cat of
        None \<Rightarrow> default_response
      | Some key \<Rightarrow> (case t_lookup key of Some txt \<Rightarrow> txt | None \<Rightarrow> default_response))"

fun scan_auto_responses ::
  "(string \<Rightarrow> string option) \<Rightarrow> (string \<times> string list \<times> string) list \<Rightarrow> string
     \<Rightarrow> string option" where
  "scan_auto_responses t_lookup [] m = None"
| "scan_auto_responses t_lookup ((cat, kws, resp) # rest) m =
     (if any_keyword_in kws m then Some (localized_response t_lookup cat resp)
      else scan_auto_responses t_lookup rest m)"

text \<open>
  \<^verbatim>\<open>str.lower\<close> is the parameter \<open>lower\<close>; \<open>ascii_lower\<close> below is what it does on
  ASCII text.
\<close>

definition analyze_message_for_auto_response ::
  "(string \<Rightarrow> string) \<Rightarrow> (string \<Rightarrow> string option) \<Rightarrow> string \<Rightarrow> string option" where
  "analyze_message_for_auto_response lower t_lookup msg =
     (let message_lower = lower msg
      in if any_keyword_in human_agent_keywords message_lower then None
         else scan_auto_responses t_lookup auto_responses message_lower)"

definition ascii_lower_char :: "char \<Rightarrow> char" where
  "ascii_lower_char c =
     (case map_of (zip ''ABCDEFGHIJKLMNOPQRSTUVWXYZ'' ''abcdefghijklmnopqrstuvwxyz'') c of
        Some l \<Rightarrow> l
      | None \<Rightarrow> c)"

definition ascii_lower :: "string \<Rightarrow> string" where
  "ascii_lower = map ascii_lower_char"

text \<open>The keyword list of a category of the table.\<close>

definition keywords_of :: "string \<Rightarrow> string list" where
  "keywords_of cat =
     (case map_of auto_responses cat of Some (kws, resp) \<Rightarrow> kws | None \<Rightarrow> [])"

section \<open>Runs of operations\<close>

text \<open>
  A call of one of the four lifecycle operations, or one scan of the monitor, with its
  arguments and the clock reading it sees.
\<close>

datatype op =
  Create int string string string time
  | AddResponse int int string bool time
  | Resolve int string int time
  | UpdateStatus int string int "string option" time
  | MonitorPass time

fun apply_op :: "manager \<Rightarrow> op \<Rightarrow> manager" where
  "apply_op s (Create uid uname cat msg now) = snd (create_support_ticket s uid uname cat msg now)"
| "apply_op s (AddResponse tid responder text admin now) =
     snd (add_ticket_response s tid responder text admin now)"
| "apply_op s (Resolve tid res admin_id now) = snd (resolve_ticket s tid res admin_id now)"
| "apply_op s (UpdateStatus tid new_status admin_id msg now) =
     snd (update_ticket_status s tid new_status admin_id msg now)"
| "apply_op s (MonitorPass now) = monitor_pass s now"

fun run :: "manager \<Rightarrow> op list \<Rightarrow> manager" where
  "run s [] = s"
| "run s (x # xs) = run (apply_op s x) xs"

text \<open>A sequence of \<^verbatim>\<open>create_support_ticket\<close> calls: the ids returned, in order, and the final state.\<close>

fun create_all ::
  "manager \<Rightarrow> (int \<times> string \<times> string \<times> string \<times> time) list \<Rightarrow> int list \<times> manager" where
  "create_all s [] = ([], s)"
| "create_all s ((uid, uname, cat, msg, now) # rest) =
     (let (tid, s') = create_support_ticket s uid uname cat msg now;
          (ids, s'') = create_all s' rest
      in (tid # ids, s''))"

section \<open>Properties of a store\<close>

definition ticket_ids :: "manager \<Rightarrow> int list" where
  "ticket_ids s = map ticket_id (tickets (support_tickets s))"

text \<open>The number of tickets whose status is \<^verbatim>\<open>open\<close>, as \<^verbatim>\<open>get_support_statistics\<close> counts them.\<close>

definition open_count :: "manager \<Rightarrow> int" where
  "open_count s = int (length (filter (\<lambda>t. status t = ''open'') (tickets (support_tickets s))))"

text \<open>Every ticket whose status is \<^verbatim>\<open>resolved\<close> has a resolution.\<close>

definition resolved_have_resolution :: "manager \<Rightarrow> bool" where
  "resolved_have_resolution s =
     list_all (\<lambda>t. status t = ''resolved'' \<longrightarrow> resolution t \<noteq> None) (tickets (support_tickets s))"

text \<open>
  Ids are pairwise different and below the next id to be assigned. Every store built
  from the empty one by the operations is of this kind.
\<close>

definition store_ids_ok :: "manager \<Rightarrow> bool" where
  "store_ids_ok s =
     (distinct (ticket_ids s) \<and>
      list_all (\<lambda>i. i < next_ticket_id (support_tickets s)) (ticket_ids s))"

text \<open>The escalation notices sent so far about one ticket.\<close>

fun is_escalation_for :: "int \<Rightarrow> notification \<Rightarrow> bool" where
  "is_escalation_for tid (TicketEscalated a i) = (i = tid)"
| "is_escalation_for tid (NewTicket a i) = False"
| "is_escalation_for tid (TicketResponse u i r) = False"
| "is_escalation_for tid (TicketResolved u i) = False"
| "is_escalation_for tid (StatusUpdate u i st) = False"

definition escalations_for :: "int \<Rightarrow> manager \<Rightarrow> notification list" where
  "escalations_for tid s = filter (is_escalation_for tid) (sent s)"

text \<open>
  The escalation of ticket \<open>tid\<close> has been done: the store holds the id, every id is
  below the next one to be assigned, and every ticket with this id carries the flag.
\<close>

definition escalation_done :: "int \<Rightarrow> manager \<Rightarrow> bool" where
  "escalation_done tid s =
     (tid \<in> set (ticket_ids s) \<and>
      list_all (\<lambda>i. i < next_ticket_id (support_tickets s)) (ticket_ids s) \<and>
      list_all (\<lambda>u. ticket_id u = tid \<longrightarrow> escalated u = Some True)
        (tickets (support_tickets s)))"

section \<open>Concrete stores\<close>

text \<open>
  The store after the first ticket of the specification's scenario has been created,
  with one admin (user 7), and the ticket it holds.
\<close>

definition one_ticket :: manager where
  "one_ticket =
     snd (create_support_ticket (initial_manager [7]) 42 ''alice'' ''Payment Problems''
            ''my btc payment failed'' 1000)"

definition alice_ticket :: ticket where
  "alice_ticket =
     \<lparr>ticket_id = 1, user_id = 42, username = ''alice'', category = ''Payment Problems'',
      message = ''my btc payment failed'', status = ''open'', priority = ''medium'',
      created_at = 1000, updated_at = 1000, responses = [], assigned_to = None,
      resolution = None, resolved_by = None, updated_by = None, escalated = None\<rparr>"

text \<open>
  A store with two tickets, the first open and created at instant 1000, and a later run
  that contains three more scans of the monitor.
\<close>

definition aged_store :: manager where
  "aged_store =
     run (initial_manager [7, 8])
       [Create 42 ''alice'' ''Payment Problems'' ''my btc payment failed'' 1000,
        Create 43 ''bob'' ''Order Issues'' ''where is my parcel'' 2000,
        UpdateStatus 2 ''in_progress'' 7 None 3000]"

definition later_ops :: "op list" where
  "later_ops =
     [MonitorPass 90000000000,
      AddResponse 1 7 ''looking into it'' True 90000001000,
      Create 44 ''carol'' ''General Inquiry'' ''opening hours'' 90000002000,
      UpdateStatus 1 ''in_progress'' 7 None 90000003000,
      UpdateStatus 1 ''open'' 7 None 90000004000,
      MonitorPass 180000000000,
      Resolve 1 ''refunded'' 7 180000001000,
      MonitorPass 270000000000]"

section \<open>The classifier\<close>

lemma any_keyword_in_iff: "any_keyword_in ks m \<longleftrightarrow> (\<exists>k \<in> set ks. sublist k m)"
  by (induction ks) auto

text \<open>
  Claim C4. A message whose lower-cased text contains \<^verbatim>\<open>talk to someone\<close> gets no
  auto-response: the human-agent phrases are tested before the table, whatever other
  keywords the text contains and whatever the localized lookup would give.
\<close>

theorem talk_to_someone_no_auto_response:
  "sublist ''talk to someone'' (lower msg) \<Longrightarrow>
     analyze_message_for_auto_response lower t_lookup msg = None"
  by (simp add: analyze_message_for_auto_response_def any_keyword_in_iff
      human_agent_keywords_def)

theorem talk_to_someone_no_auto_response_witness:
  "sublist ''talk to someone'' (ascii_lower ''Can I TALK to someone about my order payment?'') \<and>
   analyze_message_for_auto_response ascii_lower (\<lambda>key. Some key)
     ''Can I TALK to someone about my order payment?'' = None"
proof -
  have h: "sublist ''talk to someone''
             (ascii_lower ''Can I TALK to someone about my order payment?'')"
    by code_simp
  from h talk_to_someone_no_auto_response
         [of ascii_lower "''Can I TALK to someone about my order payment?''" "\<lambda>key. Some key"]
  show ?thesis by blast
qed

text \<open>
  Claim C5, as stated: every message whose lower-cased text contains
  \<^verbatim>\<open>bitcoin address\<close> gets the payment-help response. It fails where a greeting
  keyword also occurs: the table is scanned in order and \<^verbatim>\<open>greeting\<close> comes first.
\<close>

theorem bitcoin_address_greeting_counterexample:
  "sublist ''bitcoin address'' (ascii_lower ''Hello, what is your Bitcoin address?'') \<and>
   analyze_message_for_auto_response ascii_lower (\<lambda>key. None)
     ''Hello, what is your Bitcoin address?'' = Some greeting_response \<and>
   analyze_message_for_auto_response ascii_lower (\<lambda>key. Some key)
     ''Hello, what is your Bitcoin address?'' = Some ''support.auto.greeting'' \<and>
   greeting_response \<noteq> payment_help_response \<and>
   ''support.auto.greeting'' \<noteq> ''support.auto.payment_help''"
  by code_simp

text \<open>
  Claim C5, amended. A message whose lower-cased text contains \<^verbatim>\<open>bitcoin address\<close>,
  none of the human-agent phrases and no keyword of the two categories scanned before
  \<^verbatim>\<open>payment_help\<close> (\<^verbatim>\<open>greeting\<close>, \<^verbatim>\<open>order_status\<close>) gets the payment-help response:
  the localized text of \<^verbatim>\<open>support.auto.payment_help\<close> when the lookup succeeds, the
  built-in payment-help text otherwise.
\<close>

theorem bitcoin_address_payment_help:
  assumes "sublist ''bitcoin address'' (lower msg)"
    and "\<not> any_keyword_in human_agent_keywords (lower msg)"
    and "\<not> any_keyword_in (keywords_of ''greeting'') (lower msg)"
    and "\<not> any_keyword_in (keywords_of ''order_status'') (lower msg)"
  shows "analyze_message_for_auto_response lower t_lookup msg =
           Some (case t_lookup ''support.auto.payment_help'' of
                   Some txt \<Rightarrow> txt
                 | None \<Rightarrow> payment_help_response)"
proof -
  have kw: "any_keyword_in (keywords_of ''payment_help'') (lower msg)"
    using assms(1) by (simp add: keywords_of_def auto_responses_def any_keyword_in_iff)
  have loc: "localized_response t_lookup ''payment_help'' payment_help_response =
               (case t_lookup ''support.auto.payment_help'' of
                  Some txt \<Rightarrow> txt
                | None \<Rightarrow> payment_help_response)"
    by (simp add: localized_response_def key_map_def)
  have "scan_auto_responses t_lookup auto_responses (lower msg) =
          Some (localized_response t_lookup ''payment_help'' payment_help_response)"
    using assms(3,4) kw
    by (simp add: keywords_of_def auto_responses_def del: any_keyword_in.simps)
  with assms(2) loc show ?thesis
    by (simp add: analyze_message_for_auto_response_def Let_def)
qed

theorem bitcoin_address_payment_help_witness:
  "sublist ''bitcoin address'' (ascii_lower ''Send me the Bitcoin address'') \<and>
   \<not> any_keyword_in human_agent_keywords (ascii_lower ''Send me the Bitcoin address'') \<and>
   \<not> any_keyword_in (keywords_of ''greeting'') (ascii_lower ''Send me the Bitcoin address'') \<and>
   \<not> any_keyword_in (keywords_of ''order_status'')
        (ascii_lower ''Send me the Bitcoin address'') \<and>
   analyze_message_for_auto_response ascii_lower (\<lambda>key. None)
     ''Send me the Bitcoin address'' = Some payment_help_response"
proof -
  have h1: "sublist ''bitcoin address'' (ascii_lower ''Send me the Bitcoin address'')"
    by code_simp
  have h2: "\<not> any_keyword_in human_agent_keywords
                (ascii_lower ''Send me the Bitcoin address'')"
    by code_simp
  have h3: "\<not> any_keyword_in (keywords_of ''greeting'')
                (ascii_lower ''Send me the Bitcoin address'')"
    by code_simp
  have h4: "\<not> any_keyword_in (keywords_of ''order_status'')
                (ascii_lower ''Send me the Bitcoin address'')"
    by code_simp
  have r: "analyze_message_for_auto_response ascii_lower (\<lambda>key. None)
             ''Send me the Bitcoin address'' = Some payment_help_response"
    using bitcoin_address_payment_help
            [of ascii_lower "''Send me the Bitcoin address''" "\<lambda>key. None", OF h1 h2 h3 h4]
    by simp
  show ?thesis
    by (intro conjI h1 h2 h3 h4 r)
qed

section \<open>Lookups by id\<close>

lemma get_ticket_by_id_None:
  "tid \<notin> set (ticket_ids s) \<Longrightarrow> get_ticket_by_id s tid = None"
  by (auto simp: get_ticket_by_id_def ticket_ids_def find_None_iff)

text \<open>
  The ticket that \<open>get_ticket_by_id\<close> returns sits at the first position with that id,
  and \<open>modify_ticket\<close> rewrites exactly that position.
\<close>

lemma modify_ticket_find:
  "find (\<lambda>t. ticket_id t = tid) ts = Some t \<Longrightarrow>
     \<exists>i<length ts. ts ! i = t \<and> (\<forall>j<i. ticket_id (ts ! j) \<noteq> tid) \<and>
        (\<forall>f. modify_ticket tid f ts = ts[i := f t])"
proof (induction ts)
  case Nil
  then show ?case by simp
next
  case (Cons a ts)
  show ?case
  proof (cases "ticket_id a = tid")
    case True
    with Cons.prems have "a = t" by simp
    with True show ?thesis by (intro exI[of _ 0]) simp
  next
    case False
    with Cons.prems have "find (\<lambda>t. ticket_id t = tid) ts = Some t" by simp
    from Cons.IH[OF this] obtain i where i: "i < length ts" "ts ! i = t"
      "\<forall>j<i. ticket_id (ts ! j) \<noteq> tid" "\<forall>f. modify_ticket tid f ts = ts[i := f t]"
      by blast
    have "\<forall>j<Suc i. ticket_id ((a # ts) ! j) \<noteq> tid"
      using False i(3) by (auto simp: less_Suc_eq_0_disj)
    with i False show ?thesis by (intro exI[of _ "Suc i"]) simp
  qed
qed

text \<open>
  Claim C8. For an id that no ticket of the store has, the lookup returns \<open>None\<close> and
  the three lookup-based operations return \<open>False\<close>. The operations of the model are
  total functions into a pair of the returned value and the state: no branch raises.
\<close>

theorem unknown_id_not_found:
  assumes "tid \<notin> set (ticket_ids s)"
  shows "get_ticket_by_id s tid = None \<and>
         fst (add_ticket_response s tid responder body admin now) = False \<and>
         fst (resolve_ticket s tid res admin_id now) = False \<and>
         fst (update_ticket_status s tid new_status admin_id msg now) = False"
  using get_ticket_by_id_None[OF assms]
  by (simp add: add_ticket_response_def resolve_ticket_def update_ticket_status_def)

theorem unknown_id_not_found_witness:
  "5 \<notin> set (ticket_ids one_ticket) \<and>
   get_ticket_by_id one_ticket 5 = None \<and>
   fst (add_ticket_response one_ticket 5 7 ''on it'' True 2000) = False \<and>
   fst (resolve_ticket one_ticket 5 ''refunded'' 7 2000) = False \<and>
   fst (update_ticket_status one_ticket 5 ''closed'' 7 None 2000) = False"
proof -
  have h: "5 \<notin> set (ticket_ids one_ticket)" by code_simp
  from h unknown_id_not_found[OF h, where responder = 7 and body = "''on it''" and admin = True
      and now = 2000 and res = "''refunded''" and admin_id = 7 and new_status = "''closed''"
      and msg = None]
  show ?thesis by blast
qed

text \<open>
  Claim C9. For an id that no ticket of the store has, the three operations return
  \<open>False\<close> together with the state they were given: tickets, counters, statistics and
  the notification log are all unchanged.
\<close>

theorem unknown_id_state_unchanged:
  assumes "tid \<notin> set (ticket_ids s)"
  shows "add_ticket_response s tid responder body admin now = (False, s) \<and>
         resolve_ticket s tid res admin_id now = (False, s) \<and>
         update_ticket_status s tid new_status admin_id msg now = (False, s)"
  using get_ticket_by_id_None[OF assms]
  by (simp add: add_ticket_response_def resolve_ticket_def update_ticket_status_def)

theorem unknown_id_state_unchanged_witness:
  "5 \<notin> set (ticket_ids one_ticket) \<and>
   add_ticket_response one_ticket 5 7 ''on it'' True 2000 = (False, one_ticket) \<and>
   resolve_ticket one_ticket 5 ''refunded'' 7 2000 = (False, one_ticket) \<and>
   update_ticket_status one_ticket 5 ''closed'' 7 None 2000 = (False, one_ticket)"
proof -
  have h: "5 \<notin> set (ticket_ids one_ticket)" by code_simp
  from h unknown_id_state_unchanged[OF h, where responder = 7 and body = "''on it''"
      and admin = True and now = 2000 and res = "''refunded''" and admin_id = 7
      and new_status = "''closed''" and msg = None]
  show ?thesis by blast
qed

text \<open>
  Claim C10. When the id is present, \<open>add_ticket_response\<close> returns \<open>True\<close> and changes
  one position of the collection, the one holding the ticket found: there the list of
  responses gains one response, whose id is the new length of the list, and
  \<open>updated_at\<close> is set. Every other field of that ticket and every other ticket is as
  before, and so are the three counters, the statistics and the admin roster.
\<close>

theorem add_ticket_response_frame:
  assumes "get_ticket_by_id s tid = Some t"
  shows "let r = \<lparr>response_id = int (length (responses t)) + 1, responder_id = responder,
                  response = body, is_admin = admin, timestamp = now\<rparr>;
             s' = snd (add_ticket_response s tid responder body admin now)
         in fst (add_ticket_response s tid responder body admin now) = True \<and>
            response_id r = int (length (responses t @ [r])) \<and>
            (\<exists>i<length (tickets (support_tickets s)).
               tickets (support_tickets s) ! i = t \<and>
               tickets (support_tickets s') =
                 (tickets (support_tickets s))
                   [i := t\<lparr>responses := responses t @ [r], updated_at := now\<rparr>]) \<and>
            next_ticket_id (support_tickets s') = next_ticket_id (support_tickets s) \<and>
            active_tickets (support_tickets s') = active_tickets (support_tickets s) \<and>
            resolved_tickets (support_tickets s') = resolved_tickets (support_tickets s) \<and>
            support_stats s' = support_stats s \<and>
            admin_users s' = admin_users s"
proof -
  from assms have "find (\<lambda>t. ticket_id t = tid) (tickets (support_tickets s)) = Some t"
    by (simp add: get_ticket_by_id_def)
  from modify_ticket_find[OF this] obtain i where
    "i < length (tickets (support_tickets s))" "tickets (support_tickets s) ! i = t"
    "\<forall>f. modify_ticket tid f (tickets (support_tickets s)) =
           (tickets (support_tickets s))[i := f t]"
    by blast
  with assms show ?thesis
    by (auto simp: add_ticket_response_def Let_def)
qed

theorem add_ticket_response_frame_witness:
  "get_ticket_by_id one_ticket 1 = Some alice_ticket \<and>
   (let r = \<lparr>response_id = int (length (responses alice_ticket)) + 1, responder_id = 7,
              response = ''on it'', is_admin = True, timestamp = 2000\<rparr>;
        s' = snd (add_ticket_response one_ticket 1 7 ''on it'' True 2000)
    in fst (add_ticket_response one_ticket 1 7 ''on it'' True 2000) = True \<and>
       response_id r = int (length (responses alice_ticket @ [r])) \<and>
       (\<exists>i<length (tickets (support_tickets one_ticket)).
          tickets (support_tickets one_ticket) ! i = alice_ticket \<and>
          tickets (support_tickets s') =
            (tickets (support_tickets one_ticket))
              [i := alice_ticket\<lparr>responses := responses alice_ticket @ [r],
                                 updated_at := 2000\<rparr>]) \<and>
       next_ticket_id (support_tickets s') = next_ticket_id (support_tickets one_ticket) \<and>
       active_tickets (support_tickets s') = active_tickets (support_tickets one_ticket) \<and>
       resolved_tickets (support_tickets s') = resolved_tickets (support_tickets one_ticket) \<and>
       support_stats s' = support_stats one_ticket \<and>
       admin_users s' = admin_users one_ticket)"
proof -
  have h: "get_ticket_by_id one_ticket 1 = Some alice_ticket"
    by code_simp
  from h add_ticket_response_frame[OF h, where responder = 7 and body = "''on it''"
      and admin = True and now = 2000]
  show ?thesis by blast
qed

section \<open>Ticket ids\<close>

lemma create_all_ids:
  "fst (create_all s reqs) =
     [next_ticket_id (support_tickets s) ..
        next_ticket_id (support_tickets s) + int (length reqs) - 1] \<and>
   ticket_ids (snd (create_all s reqs)) = ticket_ids s @ fst (create_all s reqs)"
proof (induction reqs arbitrary: s)
  case Nil
  then show ?case by simp
next
  case (Cons req reqs)
  obtain uid uname cat msg now where req: "req = (uid, uname, cat, msg, now)"
    by (cases req) auto
  define s1 where "s1 = snd (create_support_ticket s uid uname cat msg now)"
  have c: "create_support_ticket s uid uname cat msg now =
             (next_ticket_id (support_tickets s), s1)"
    by (simp add: s1_def create_support_ticket_def Let_def)
  have n1: "next_ticket_id (support_tickets s1) = next_ticket_id (support_tickets s) + 1"
    and i1: "ticket_ids s1 = ticket_ids s @ [next_ticket_id (support_tickets s)]"
    by (simp_all add: s1_def create_support_ticket_def Let_def ticket_ids_def)
  from Cons.IH[of s1] show ?case
    by (simp add: req c n1 i1 split_beta Let_def
        upto_rec1[of "next_ticket_id (support_tickets s)"])
qed

text \<open>
  Claim C6. Whatever sequence of \<open>create_support_ticket\<close> calls is made on the store
  that \<open>load_support_tickets\<close> builds when there is no file, the ids returned are
  \<open>1, 2, \<dots>, n\<close> in this order, hence strictly increasing from 1, and they are the ids of
  the tickets stored, which are pairwise different.
\<close>

theorem created_ids_sequential:
  "fst (create_all (initial_manager admins) reqs) = [1 .. int (length reqs)] \<and>
   sorted_wrt (<) (fst (create_all (initial_manager admins) reqs)) \<and>
   ticket_ids (snd (create_all (initial_manager admins) reqs)) =
     fst (create_all (initial_manager admins) reqs) \<and>
   distinct (ticket_ids (snd (create_all (initial_manager admins) reqs)))"
proof -
  have n: "next_ticket_id (support_tickets (initial_manager admins)) = 1"
    and e: "ticket_ids (initial_manager admins) = []"
    by (simp_all add: initial_manager_def load_support_tickets_def ticket_ids_def)
  have ids: "fst (create_all (initial_manager admins) reqs) = [1 .. int (length reqs)]"
    using create_all_ids[of "initial_manager admins" reqs] by (simp add: n)
  have st: "ticket_ids (snd (create_all (initial_manager admins) reqs)) =
              fst (create_all (initial_manager admins) reqs)"
    using create_all_ids[of "initial_manager admins" reqs] by (simp add: e)
  have "sorted_wrt (<) [1 .. int (length reqs)]"
    by (simp add: strict_sorted_iff)
  with ids st show ?thesis by simp
qed

section \<open>The counter of active tickets\<close>

text \<open>
  Where the counter is kept equal to the number of open tickets: by creation, by a
  response, by \<open>update_ticket_status\<close>, and by \<open>resolve_ticket\<close> when the ticket it
  finds is open.
\<close>

lemma count_modify_ticket:
  "find (\<lambda>t. ticket_id t = tid) ts = Some t \<Longrightarrow>
     int (length (filter P (modify_ticket tid f ts))) =
       int (length (filter P ts)) - (if P t then 1 else 0) + (if P (f t) then 1 else 0)"
  by (induction ts) (auto split: if_splits)

lemma active_count_kept:
  assumes "active_tickets (support_tickets s) = open_count s"
  shows "active_tickets (support_tickets (snd (create_support_ticket s uid uname cat msg now))) =
           open_count (snd (create_support_ticket s uid uname cat msg now))"
    and "active_tickets (support_tickets (snd (add_ticket_response s tid responder body admin now))) =
           open_count (snd (add_ticket_response s tid responder body admin now))"
    and "active_tickets (support_tickets (snd (update_ticket_status s tid new_status admin_id m now))) =
           open_count (snd (update_ticket_status s tid new_status admin_id m now))"
    and "(case get_ticket_by_id s tid of None \<Rightarrow> True | Some t \<Rightarrow> status t = ''open'') \<Longrightarrow>
         active_tickets (support_tickets (snd (resolve_ticket s tid res admin_id now))) =
           open_count (snd (resolve_ticket s tid res admin_id now))"
proof -
  show "active_tickets (support_tickets (snd (create_support_ticket s uid uname cat msg now))) =
           open_count (snd (create_support_ticket s uid uname cat msg now))"
    using assms by (simp add: create_support_ticket_def open_count_def Let_def)
  show "active_tickets (support_tickets (snd (add_ticket_response s tid responder body admin now))) =
           open_count (snd (add_ticket_response s tid responder body admin now))"
    using assms
    by (auto simp: add_ticket_response_def open_count_def Let_def get_ticket_by_id_def
        count_modify_ticket split: option.splits)
  show "active_tickets (support_tickets (snd (update_ticket_status s tid new_status admin_id m now))) =
           open_count (snd (update_ticket_status s tid new_status admin_id m now))"
  proof (cases "get_ticket_by_id s tid")
    case None
    with assms show ?thesis by (simp add: update_ticket_status_def open_count_def)
  next
    case (Some t)
    then have f: "find (\<lambda>t. ticket_id t = tid) (tickets (support_tickets s)) = Some t"
      by (simp add: get_ticket_by_id_def)
    have "t \<in> set (tickets (support_tickets s))"
      using f by (auto simp: find_Some_iff)
    then have "status t = ''open'' \<Longrightarrow> 1 \<le> open_count s"
      by (auto simp: open_count_def Suc_le_eq filter_empty_conv)
    with assms Some f show ?thesis
      by (auto simp: update_ticket_status_def open_count_def Let_def count_modify_ticket)
  qed
  show "active_tickets (support_tickets (snd (resolve_ticket s tid res admin_id now))) =
           open_count (snd (resolve_ticket s tid res admin_id now))"
    if "case get_ticket_by_id s tid of None \<Rightarrow> True | Some t \<Rightarrow> status t = ''open''"
    using assms that
    by (auto simp: resolve_ticket_def open_count_def Let_def get_ticket_by_id_def
        count_modify_ticket split: option.splits)
qed

text \<open>
  Claim C1 says that \<open>active_tickets\<close> equals the number of open tickets after every
  lifecycle operation. \<open>resolve_ticket\<close> subtracts one whatever the status of the ticket
  was, where \<open>update_ticket_status\<close> subtracts only when the ticket was open. Two
  tickets are created, the first is put \<^verbatim>\<open>in_progress\<close> (counter 1, one open ticket)
  and then resolved: the counter is 0 while one ticket is still open.
\<close>

theorem resolve_in_progress_breaks_active_count:
  "(let s1 = snd (create_support_ticket (initial_manager [7]) 42 ''alice'' ''Payment Problems''
                    ''my btc payment failed'' 1000);
        s2 = snd (create_support_ticket s1 43 ''bob'' ''Order Issues''
                    ''where is my parcel'' 2000);
        s3 = snd (update_ticket_status s2 1 ''in_progress'' 7 None 3000);
        s4 = snd (resolve_ticket s3 1 ''refunded'' 7 4000)
    in active_tickets (support_tickets s3) = open_count s3 \<and>
       fst (resolve_ticket s3 1 ''refunded'' 7 4000) = True \<and>
       active_tickets (support_tickets s4) = 0 \<and> open_count s4 = 1)"
  by code_simp

text \<open>
  Claim C2 says that a second \<open>resolve_ticket\<close> on the same id is rejected or changes
  nothing, and that the decrement stops at 0. The second call returns \<open>True\<close>, sends
  another notice, counts the ticket as resolved once more and takes the counter
  to \<open>-1\<close>.
\<close>

theorem resolve_twice_goes_negative:
  "(let s1 = snd (create_support_ticket (initial_manager [7]) 42 ''alice'' ''Payment Problems''
                    ''my btc payment failed'' 1000);
        s2 = snd (resolve_ticket s1 1 ''refunded'' 7 2000);
        s3 = snd (resolve_ticket s2 1 ''refunded'' 7 3000)
    in fst (resolve_ticket s1 1 ''refunded'' 7 2000) = True \<and>
       active_tickets (support_tickets s2) = 0 \<and>
       fst (resolve_ticket s2 1 ''refunded'' 7 3000) = True \<and>
       active_tickets (support_tickets s3) = - 1 \<and>
       resolved_tickets (support_tickets s3) = 2 \<and>
       sent s3 \<noteq> sent s2)"
  by code_simp

section \<open>Resolved tickets and their resolution\<close>

lemma modify_ticket_list_all:
  "list_all P ts \<Longrightarrow>
   (case find (\<lambda>t. ticket_id t = tid) ts of None \<Rightarrow> True | Some t \<Rightarrow> P (f t)) \<Longrightarrow>
   list_all P (modify_ticket tid f ts)"
  by (induction ts) (auto split: if_splits)

lemma find_Some_list_all:
  "find Q ts = Some t \<Longrightarrow> list_all P ts \<Longrightarrow> P t"
  by (auto simp: find_Some_iff list_all_length)

lemma escalate_ticket_resolved:
  "resolved_have_resolution s \<Longrightarrow> resolved_have_resolution (escalate_ticket s tid now)"
proof (cases "get_ticket_by_id s tid")
  case None
  assume "resolved_have_resolution s"
  with None show ?thesis by (simp add: escalate_ticket_def)
next
  case (Some t)
  assume inv: "resolved_have_resolution s"
  with Some have "status t = ''resolved'' \<longrightarrow> resolution t \<noteq> None"
    unfolding resolved_have_resolution_def get_ticket_by_id_def
    by (rule_tac find_Some_list_all) auto
  with inv Some show ?thesis
    by (auto simp: resolved_have_resolution_def escalate_ticket_def get_ticket_by_id_def Let_def
        intro!: modify_ticket_list_all)
qed

lemma monitor_loop_resolved:
  "resolved_have_resolution s \<Longrightarrow> resolved_have_resolution (monitor_loop idxs now s)"
  by (induction idxs arbitrary: s) (auto simp: Let_def escalate_ticket_resolved)

text \<open>
  Where the property is kept: by creation, by a response, by \<open>resolve_ticket\<close>, which
  stores the resolution it is given together with the status, by a scan of the monitor,
  and by \<open>update_ticket_status\<close> to any status other than \<^verbatim>\<open>resolved\<close>.
\<close>

lemma resolution_kept:
  assumes "resolved_have_resolution s"
  shows "resolved_have_resolution (snd (create_support_ticket s uid uname cat msg now))"
    and "resolved_have_resolution (snd (add_ticket_response s tid responder body admin now))"
    and "resolved_have_resolution (snd (resolve_ticket s tid res admin_id now))"
    and "resolved_have_resolution (monitor_pass s now)"
    and "new_status \<noteq> ''resolved'' \<Longrightarrow>
         resolved_have_resolution (snd (update_ticket_status s tid new_status admin_id m now))"
proof -
  have found: "status t = ''resolved'' \<longrightarrow> resolution t \<noteq> None"
    if "get_ticket_by_id s tid = Some t" for t
    using assms that
    unfolding resolved_have_resolution_def get_ticket_by_id_def
    by (rule_tac find_Some_list_all) auto
  show "resolved_have_resolution (snd (create_support_ticket s uid uname cat msg now))"
    using assms
    by (simp add: resolved_have_resolution_def create_support_ticket_def Let_def)
  show "resolved_have_resolution (snd (add_ticket_response s tid responder body admin now))"
  proof (cases "get_ticket_by_id s tid")
    case None
    with assms show ?thesis by (simp add: add_ticket_response_def)
  next
    case (Some t)
    with assms found[OF Some] show ?thesis
      by (auto simp: resolved_have_resolution_def add_ticket_response_def
          get_ticket_by_id_def Let_def intro!: modify_ticket_list_all)
  qed
  show "resolved_have_resolution (snd (resolve_ticket s tid res admin_id now))"
  proof (cases "get_ticket_by_id s tid")
    case None
    with assms show ?thesis by (simp add: resolve_ticket_def)
  next
    case (Some t)
    with assms show ?thesis
      by (auto simp: resolved_have_resolution_def resolve_ticket_def get_ticket_by_id_def
          Let_def intro!: modify_ticket_list_all)
  qed
  show "resolved_have_resolution (monitor_pass s now)"
    using assms by (simp add: monitor_pass_def monitor_loop_resolved)
  show "resolved_have_resolution (snd (update_ticket_status s tid new_status admin_id m now))"
    if "new_status \<noteq> ''resolved''"
  proof (cases "get_ticket_by_id s tid")
    case None
    with assms show ?thesis by (simp add: update_ticket_status_def)
  next
    case (Some t)
    with assms that show ?thesis
      by (auto simp: resolved_have_resolution_def update_ticket_status_def
          get_ticket_by_id_def Let_def intro!: modify_ticket_list_all)
  qed
qed

text \<open>
  Claim C3 says that every ticket whose status is \<^verbatim>\<open>resolved\<close> has a resolution, in
  particular after \<open>update_ticket_status\<close> with the new status \<^verbatim>\<open>resolved\<close>.
  \<open>resolve_ticket\<close> writes the resolution when it writes the status;
  \<open>update_ticket_status\<close> writes the status alone. On a ticket that was just created
  the call returns \<open>True\<close> and leaves a ticket with status \<^verbatim>\<open>resolved\<close> whose
  resolution is \<^verbatim>\<open>None\<close>.
\<close>

theorem update_status_resolved_without_resolution:
  "(let s1 = snd (create_support_ticket (initial_manager [7]) 42 ''alice'' ''Payment Problems''
                    ''my btc payment failed'' 1000);
        s2 = snd (update_ticket_status s1 1 ''resolved'' 7 None 2000)
    in map resolution (tickets (support_tickets s1)) = [None] \<and>
       fst (update_ticket_status s1 1 ''resolved'' 7 None 2000) = True \<and>
       map ticket_id (tickets (support_tickets s2)) = [1] \<and>
       map status (tickets (support_tickets s2)) = [''resolved''] \<and>
       map resolution (tickets (support_tickets s2)) = [None])"
  by code_simp

section \<open>The escalation monitor\<close>

lemma modify_ticket_ids:
  "(\<And>t. ticket_id (f t) = ticket_id t) \<Longrightarrow>
     map ticket_id (modify_ticket tid f ts) = map ticket_id ts"
  by (induction ts) auto

lemma find_modify_ticket:
  "(\<And>t. ticket_id (f t) = ticket_id t) \<Longrightarrow>
     find (\<lambda>t. ticket_id t = k) (modify_ticket tid f ts) =
       (if k = tid then map_option f (find (\<lambda>t. ticket_id t = k) ts)
        else find (\<lambda>t. ticket_id t = k) ts)"
  by (induction ts) auto

lemma find_nth_distinct:
  assumes "distinct (map ticket_id ts)" and "i < length ts"
  shows "find (\<lambda>t. ticket_id t = ticket_id (ts ! i)) ts = Some (ts ! i)"
proof -
  have "\<forall>j<i. ticket_id (ts ! j) \<noteq> ticket_id (ts ! i)"
  proof (intro allI impI)
    fix j assume "j < i"
    with assms nth_eq_iff_index_eq[of "map ticket_id ts" j i]
    show "ticket_id (ts ! j) \<noteq> ticket_id (ts ! i)" by auto
  qed
  with assms(2) show ?thesis
    by (auto simp: find_Some_iff)
qed

lemma find_distinct_unique:
  assumes "distinct (map ticket_id ts)" and "u \<in> set ts"
  shows "find (\<lambda>t. ticket_id t = ticket_id u) ts = Some u"
proof -
  from assms(2) obtain i where "i < length ts" "ts ! i = u"
    by (auto simp: in_set_conv_nth)
  with find_nth_distinct[OF assms(1), of i] show ?thesis by simp
qed

lemma find_Some_id: "find (\<lambda>t. ticket_id t = k) ts = Some t \<Longrightarrow> ticket_id t = k \<and> t \<in> set ts"
  by (auto simp: find_Some_iff)

lemma escalate_ticket_ids [simp]: "ticket_ids (escalate_ticket s k now) = ticket_ids s"
  by (simp add: escalate_ticket_def ticket_ids_def Let_def modify_ticket_ids split: option.splits)

lemma escalate_ticket_admins [simp]: "admin_users (escalate_ticket s k now) = admin_users s"
  by (simp add: escalate_ticket_def Let_def split: option.splits)

lemma escalate_ticket_next [simp]:
  "next_ticket_id (support_tickets (escalate_ticket s k now)) = next_ticket_id (support_tickets s)"
  by (simp add: escalate_ticket_def Let_def split: option.splits)

lemma escalate_ticket_get:
  "get_ticket_by_id (escalate_ticket s k now) j =
     (if j = k
      then map_option (\<lambda>t. t\<lparr>priority := ''high'', escalated := Some True, updated_at := now\<rparr>)
             (get_ticket_by_id s j)
      else get_ticket_by_id s j)"
  by (simp add: escalate_ticket_def get_ticket_by_id_def Let_def find_modify_ticket
      split: option.splits)

lemma escalate_ticket_escalations:
  "escalations_for tid (escalate_ticket s k now) =
     escalations_for tid s @
       (if tid = k \<and> get_ticket_by_id s k \<noteq> None
        then map (\<lambda>a. TicketEscalated a tid) (admin_users s) else [])"
proof (cases "get_ticket_by_id s k")
  case None
  then show ?thesis by (simp add: escalate_ticket_def)
next
  case (Some t)
  then have "ticket_id t = k"
    by (auto simp: get_ticket_by_id_def dest: find_Some_id)
  with Some show ?thesis
    by (auto simp: escalate_ticket_def escalations_for_def Let_def filter_map o_def
        filter_empty_conv)
qed

lemma monitor_loop_frame:
  "ticket_ids (monitor_loop idxs now s) = ticket_ids s \<and>
   admin_users (monitor_loop idxs now s) = admin_users s \<and>
   next_ticket_id (support_tickets (monitor_loop idxs now s)) = next_ticket_id (support_tickets s)"
  by (induction idxs arbitrary: s) (auto simp: Let_def)


lemma monitor_loop_ticket:
  assumes "distinct (ticket_ids s)"
    and "\<forall>i\<in>set idxs. i < length (ticket_ids s)"
    and "get_ticket_by_id s tid = Some t"
  shows "\<exists>t'. get_ticket_by_id (monitor_loop idxs now s) tid = Some t' \<and>
           (if needs_escalation now t \<and> tid \<in> (\<lambda>i. ticket_ids s ! i) ` set idxs
            then priority t' = ''high'' \<and> escalated t' = Some True \<and>
                 escalations_for tid (monitor_loop idxs now s) =
                   escalations_for tid s @ map (\<lambda>a. TicketEscalated a tid) (admin_users s)
            else t' = t \<and>
                 escalations_for tid (monitor_loop idxs now s) = escalations_for tid s)"
  using assms
proof (induction idxs arbitrary: s t)
  case Nil
  then show ?case by simp
next
  case (Cons i idxs)
  let ?ts = "tickets (support_tickets s)"
  let ?u = "?ts ! i"
  let ?esc = "\<lambda>t. t\<lparr>priority := ''high'', escalated := Some True, updated_at := now\<rparr>"
  from Cons.prems(2) have i: "i < length ?ts"
    by (simp add: ticket_ids_def)
  have gu: "get_ticket_by_id s (ticket_id ?u) = Some ?u"
    using find_nth_distinct[of ?ts i] Cons.prems(1) i
    by (simp add: get_ticket_by_id_def ticket_ids_def)
  have idu: "ticket_ids s ! i = ticket_id ?u"
    using i by (simp add: ticket_ids_def)
  show ?case
  proof (cases "needs_escalation now ?u")
    case needs: True
    define s' where "s' = escalate_ticket s (ticket_id ?u) now"
    have step: "monitor_loop (i # idxs) now s = monitor_loop idxs now s'"
      using needs by (simp add: s'_def Let_def)
    have ids': "ticket_ids s' = ticket_ids s" and adm': "admin_users s' = admin_users s"
      by (simp_all add: s'_def)
    have d': "distinct (ticket_ids s')" and v': "\<forall>i\<in>set idxs. i < length (ticket_ids s')"
      using Cons.prems(1,2) by (simp_all add: ids')
    show ?thesis
    proof (cases "ticket_id ?u = tid")
      case True
      with gu Cons.prems(3) have tu: "t = ?u" by simp
      have g': "get_ticket_by_id s' tid = Some (?esc ?u)"
        using gu True by (simp add: s'_def escalate_ticket_get)
      have e': "escalations_for tid s' =
                  escalations_for tid s @ map (\<lambda>a. TicketEscalated a tid) (admin_users s)"
        using gu True by (simp add: s'_def escalate_ticket_escalations)
      have nn: "\<not> needs_escalation now (?esc ?u)"
        by (simp add: needs_escalation_def)
      from Cons.IH[OF d' v' g'] nn
      have "get_ticket_by_id (monitor_loop idxs now s') tid = Some (?esc ?u) \<and>
            escalations_for tid (monitor_loop idxs now s') = escalations_for tid s'"
        by auto
      with needs tu True idu e' show ?thesis
        unfolding step by simp
    next
      case False
      have g': "get_ticket_by_id s' tid = Some t"
        using False Cons.prems(3) by (simp add: s'_def escalate_ticket_get)
      have e': "escalations_for tid s' = escalations_for tid s"
        using False by (simp add: s'_def escalate_ticket_escalations)
      have im: "tid \<in> (\<lambda>i. ticket_ids s ! i) ` set (i # idxs) \<longleftrightarrow>
                tid \<in> (\<lambda>i. ticket_ids s ! i) ` set idxs"
        using False idu by auto
      from Cons.IH[OF d' v' g', unfolded ids' adm' e'] show ?thesis
        unfolding step im .
    qed
  next
    case noneed: False
    have step: "monitor_loop (i # idxs) now s = monitor_loop idxs now s"
      using noneed by (simp add: Let_def)
    have v': "\<forall>i\<in>set idxs. i < length (ticket_ids s)"
      using Cons.prems(2) by simp
    have im: "needs_escalation now t \<and> tid \<in> (\<lambda>i. ticket_ids s ! i) ` set (i # idxs) \<longleftrightarrow>
              needs_escalation now t \<and> tid \<in> (\<lambda>i. ticket_ids s ! i) ` set idxs"
    proof (cases "ticket_id ?u = tid")
      case True
      with gu Cons.prems(3) have "t = ?u" by simp
      with noneed show ?thesis by simp
    next
      case False
      with idu show ?thesis by auto
    qed
    from Cons.IH[OF Cons.prems(1) v' Cons.prems(3)] show ?thesis
      unfolding step im .
  qed
qed


lemma modify_ticket_preserves:
  "list_all P ts \<Longrightarrow> (\<And>t. P t \<Longrightarrow> P (f t)) \<Longrightarrow> list_all P (modify_ticket tid f ts)"
  by (induction ts) auto

lemma escalate_ticket_done:
  assumes "escalation_done tid s"
  shows "escalation_done tid (escalate_ticket s k now)"
proof -
  have "list_all (\<lambda>u. ticket_id u = tid \<longrightarrow> escalated u = Some True)
          (tickets (support_tickets (escalate_ticket s k now)))"
    using assms
    by (auto simp: escalation_done_def escalate_ticket_def Let_def split: option.splits
        intro!: modify_ticket_preserves)
  with assms show ?thesis
    by (simp add: escalation_done_def)
qed

lemma monitor_loop_done:
  assumes "escalation_done tid s" and "\<forall>i\<in>set idxs. i < length (ticket_ids s)"
  shows "escalation_done tid (monitor_loop idxs now s) \<and>
         escalations_for tid (monitor_loop idxs now s) = escalations_for tid s"
  using assms
proof (induction idxs arbitrary: s)
  case Nil
  then show ?case by simp
next
  case (Cons i idxs)
  let ?u = "tickets (support_tickets s) ! i"
  from Cons.prems(2) have v: "\<forall>i\<in>set idxs. i < length (ticket_ids s)" by simp
  show ?case
  proof (cases "needs_escalation now ?u")
    case True
    from Cons.prems(2) have "?u \<in> set (tickets (support_tickets s))"
      by (simp add: ticket_ids_def)
    with Cons.prems(1) have "ticket_id ?u = tid \<longrightarrow> escalated ?u = Some True"
      by (simp add: escalation_done_def list_all_iff)
    with True have ne: "tid \<noteq> ticket_id ?u"
      by (auto simp: needs_escalation_def)
    define s' where "s' = escalate_ticket s (ticket_id ?u) now"
    have step: "monitor_loop (i # idxs) now s = monitor_loop idxs now s'"
      using True by (simp add: s'_def Let_def)
    have d': "escalation_done tid s'"
      using Cons.prems(1) by (simp add: s'_def escalate_ticket_done)
    have v': "\<forall>i\<in>set idxs. i < length (ticket_ids s')"
      using v by (simp add: s'_def)
    have e': "escalations_for tid s' = escalations_for tid s"
      using ne by (simp add: s'_def escalate_ticket_escalations)
    from Cons.IH[OF d' v', unfolded e'] show ?thesis
      unfolding step .
  next
    case False
    then have step: "monitor_loop (i # idxs) now s = monitor_loop idxs now s"
      by (simp add: Let_def)
    from Cons.IH[OF Cons.prems(1) v] show ?thesis
      unfolding step .
  qed
qed

lemma open_positions_valid: "\<forall>i\<in>set (open_positions ts). i < length ts"
  by (simp add: open_positions_def)

lemma monitor_pass_done:
  assumes "escalation_done tid s"
  shows "escalation_done tid (monitor_pass s now) \<and>
         escalations_for tid (monitor_pass s now) = escalations_for tid s"
  unfolding monitor_pass_def
  using open_positions_valid[of "tickets (support_tickets s)"]
  by (intro monitor_loop_done[OF assms]) (simp add: ticket_ids_def)

lemma lifecycle_ids:
  "ticket_ids (snd (add_ticket_response s k responder body admin now)) = ticket_ids s"
  "ticket_ids (snd (resolve_ticket s k res admin_id now)) = ticket_ids s"
  "ticket_ids (snd (update_ticket_status s k new_status admin_id msg now)) = ticket_ids s"
  by (simp_all add: add_ticket_response_def resolve_ticket_def update_ticket_status_def
      ticket_ids_def modify_ticket_ids Let_def split: option.splits)

lemma lifecycle_next:
  "next_ticket_id (support_tickets (snd (add_ticket_response s k responder body admin now))) =
     next_ticket_id (support_tickets s)"
  "next_ticket_id (support_tickets (snd (resolve_ticket s k res admin_id now))) =
     next_ticket_id (support_tickets s)"
  "next_ticket_id (support_tickets (snd (update_ticket_status s k new_status admin_id msg now))) =
     next_ticket_id (support_tickets s)"
  by (simp_all add: add_ticket_response_def resolve_ticket_def update_ticket_status_def
      Let_def split: option.splits)

lemma lifecycle_escalations:
  "escalations_for tid (snd (create_support_ticket s uid uname cat msg now)) =
     escalations_for tid s"
  "escalations_for tid (snd (add_ticket_response s k responder body admin now)) =
     escalations_for tid s"
  "escalations_for tid (snd (resolve_ticket s k res admin_id now)) = escalations_for tid s"
  "escalations_for tid (snd (update_ticket_status s k new_status admin_id msg' now)) =
     escalations_for tid s"
  by (simp_all add: create_support_ticket_def add_ticket_response_def resolve_ticket_def
      update_ticket_status_def escalations_for_def Let_def filter_empty_conv
      split: option.splits)

lemma lifecycle_flags:
  assumes "list_all (\<lambda>u. ticket_id u = tid \<longrightarrow> escalated u = Some True)
             (tickets (support_tickets s))"
  shows "list_all (\<lambda>u. ticket_id u = tid \<longrightarrow> escalated u = Some True)
           (tickets (support_tickets (snd (add_ticket_response s k responder body admin now))))"
    and "list_all (\<lambda>u. ticket_id u = tid \<longrightarrow> escalated u = Some True)
           (tickets (support_tickets (snd (resolve_ticket s k res admin_id now))))"
    and "list_all (\<lambda>u. ticket_id u = tid \<longrightarrow> escalated u = Some True)
           (tickets (support_tickets (snd (update_ticket_status s k new_status admin_id msg now))))"
  using assms
  by (auto simp: add_ticket_response_def resolve_ticket_def update_ticket_status_def Let_def
      split: option.splits intro!: modify_ticket_preserves)

lemma apply_op_done:
  assumes "escalation_done tid s"
  shows "escalation_done tid (apply_op s x) \<and>
         escalations_for tid (apply_op s x) = escalations_for tid s"
proof (cases x)
  case (Create uid uname cat msg now)
  from assms have "tid < next_ticket_id (support_tickets s)"
    by (auto simp: escalation_done_def list_all_iff)
  with assms have "escalation_done tid (snd (create_support_ticket s uid uname cat msg now))"
    by (auto simp: escalation_done_def create_support_ticket_def Let_def ticket_ids_def
        list_all_iff)
  with Create show ?thesis
    by (simp add: lifecycle_escalations)
next
  case (AddResponse k responder body admin now)
  with assms show ?thesis
    by (simp add: escalation_done_def lifecycle_ids lifecycle_next lifecycle_escalations
        lifecycle_flags)
next
  case (Resolve k res admin_id now)
  with assms show ?thesis
    by (simp add: escalation_done_def lifecycle_ids lifecycle_next lifecycle_escalations
        lifecycle_flags)
next
  case (UpdateStatus k new_status admin_id msg now)
  with assms show ?thesis
    by (simp add: escalation_done_def lifecycle_ids lifecycle_next lifecycle_escalations
        lifecycle_flags)
next
  case (MonitorPass now)
  with monitor_pass_done[OF assms] show ?thesis by simp
qed

lemma run_done:
  "escalation_done tid s \<Longrightarrow> escalations_for tid (run s ops) = escalations_for tid s"
  by (induction ops arbitrary: s) (auto simp: apply_op_done)


text \<open>Every store built from the empty one has pairwise different ids below the next id.\<close>

lemma apply_op_ids_ok: "store_ids_ok s \<Longrightarrow> store_ids_ok (apply_op s x)"
proof (cases x)
  case (Create uid uname cat msg now)
  assume "store_ids_ok s"
  with Create show ?thesis
    by (auto simp: store_ids_ok_def create_support_ticket_def Let_def ticket_ids_def
        list_all_iff)
next
  case (MonitorPass now)
  assume "store_ids_ok s"
  with MonitorPass show ?thesis
    by (simp add: store_ids_ok_def monitor_pass_def monitor_loop_frame)
qed (simp_all add: store_ids_ok_def lifecycle_ids lifecycle_next)

lemma reachable_ids_ok: "store_ids_ok (run (initial_manager admins) ops)"
proof -
  have "store_ids_ok s \<Longrightarrow> store_ids_ok (run s ops)" for s
    by (induction ops arbitrary: s) (auto simp: apply_op_ids_ok)
  moreover have "store_ids_ok (initial_manager admins)"
    by (simp add: store_ids_ok_def initial_manager_def load_support_tickets_def ticket_ids_def)
  ultimately show ?thesis .
qed

text \<open>
  Claim C7. In a store whose ids are pairwise different and below the next id, take a
  ticket that is open, not flagged as escalated and created more than 24 hours before
  \<open>now\<close>. One scan of the monitor at \<open>now\<close> leaves it with priority \<^verbatim>\<open>high\<close> and the
  flag set, and sends one escalation notice about it to each admin of the roster, in
  order. Whatever lifecycle operations and further scans follow, at whatever instants,
  no other escalation notice about this ticket is ever sent.
\<close>

theorem escalated_exactly_once:
  assumes "store_ids_ok s"
    and "t \<in> set (tickets (support_tickets s))"
    and "status t = ''open''"
    and "escalated t \<noteq> Some True"
    and "now - created_at t > day_us"
  shows "(\<exists>t'. get_ticket_by_id (monitor_pass s now) (ticket_id t) = Some t' \<and>
               priority t' = ''high'' \<and> escalated t' = Some True) \<and>
         escalations_for (ticket_id t) (monitor_pass s now) =
           escalations_for (ticket_id t) s @
             map (\<lambda>a. TicketEscalated a (ticket_id t)) (admin_users s) \<and>
         escalations_for (ticket_id t) (run (monitor_pass s now) ops) =
           escalations_for (ticket_id t) (monitor_pass s now)"
proof -
  let ?ts = "tickets (support_tickets s)"
  let ?tid = "ticket_id t"
  let ?s1 = "monitor_pass s now"
  from assms(1) have d: "distinct (ticket_ids s)"
    and b: "list_all (\<lambda>i. i < next_ticket_id (support_tickets s)) (ticket_ids s)"
    by (simp_all add: store_ids_ok_def)
  have g: "get_ticket_by_id s ?tid = Some t"
    using find_distinct_unique[of ?ts t] d assms(2)
    by (simp add: get_ticket_by_id_def ticket_ids_def)
  have needs: "needs_escalation now t"
    using assms(4,5) by (simp add: needs_escalation_def)
  from assms(2) obtain i where i: "i < length ?ts" "?ts ! i = t"
    by (auto simp: in_set_conv_nth)
  with assms(3) have "i \<in> set (open_positions ?ts)" "ticket_ids s ! i = ?tid"
    by (simp_all add: open_positions_def ticket_ids_def)
  then have im: "?tid \<in> (\<lambda>i. ticket_ids s ! i) ` set (open_positions ?ts)"
    by force
  have v: "\<forall>i\<in>set (open_positions ?ts). i < length (ticket_ids s)"
    using open_positions_valid[of ?ts] by (simp add: ticket_ids_def)
  from monitor_loop_ticket[OF d v g, of now] needs im
  obtain t' where t': "get_ticket_by_id ?s1 ?tid = Some t'"
    "priority t' = ''high''" "escalated t' = Some True"
    and e1: "escalations_for ?tid ?s1 =
               escalations_for ?tid s @ map (\<lambda>a. TicketEscalated a ?tid) (admin_users s)"
    by (auto simp: monitor_pass_def)
  have ids1: "ticket_ids ?s1 = ticket_ids s"
    and n1: "next_ticket_id (support_tickets ?s1) = next_ticket_id (support_tickets s)"
    by (simp_all add: monitor_pass_def monitor_loop_frame)
  have fl: "list_all (\<lambda>u. ticket_id u = ?tid \<longrightarrow> escalated u = Some True)
              (tickets (support_tickets ?s1))"
    unfolding list_all_iff
  proof (intro ballI impI)
    fix u assume u: "u \<in> set (tickets (support_tickets ?s1))" "ticket_id u = ?tid"
    from d ids1 have "distinct (map ticket_id (tickets (support_tickets ?s1)))"
      by (simp add: ticket_ids_def)
    from find_distinct_unique[OF this u(1)] u(2) t'(1)
    have "u = t'" by (simp add: get_ticket_by_id_def)
    with t'(3) show "escalated u = Some True" by simp
  qed
  have "?tid \<in> set (ticket_ids s)"
    using assms(2) by (auto simp: ticket_ids_def)
  with b fl have "escalation_done ?tid ?s1"
    by (simp add: escalation_done_def ids1 n1)
  from run_done[OF this, of ops] t' e1 show ?thesis
    by blast
qed

theorem escalated_exactly_once_witness:
  "store_ids_ok aged_store \<and>
   alice_ticket \<in> set (tickets (support_tickets aged_store)) \<and>
   status alice_ticket = ''open'' \<and>
   escalated alice_ticket \<noteq> Some True \<and>
   90000000000 - created_at alice_ticket > day_us \<and>
   (\<exists>t'. get_ticket_by_id (monitor_pass aged_store 90000000000) (ticket_id alice_ticket) = Some t' \<and>
         priority t' = ''high'' \<and> escalated t' = Some True) \<and>
   escalations_for (ticket_id alice_ticket) (monitor_pass aged_store 90000000000) =
     escalations_for (ticket_id alice_ticket) aged_store @
       map (\<lambda>a. TicketEscalated a (ticket_id alice_ticket)) (admin_users aged_store) \<and>
   escalations_for (ticket_id alice_ticket) (run (monitor_pass aged_store 90000000000) later_ops) =
     escalations_for (ticket_id alice_ticket) (monitor_pass aged_store 90000000000) \<and>
   escalations_for (ticket_id alice_ticket) (run (monitor_pass aged_store 90000000000) later_ops) =
     [TicketEscalated 7 1, TicketEscalated 8 1]"
proof -
  have h1: "store_ids_ok aged_store" by code_simp
  have h2: "alice_ticket \<in> set (tickets (support_tickets aged_store))" by code_simp
  have h3: "status alice_ticket = ''open''" by code_simp
  have h4: "escalated alice_ticket \<noteq> Some True" by code_simp
  have h5: "90000000000 - created_at alice_ticket > day_us" by code_simp
  have c: "escalations_for (ticket_id alice_ticket)
             (run (monitor_pass aged_store 90000000000) later_ops) =
           [TicketEscalated 7 1, TicketEscalated 8 1]"
    by code_simp
  from escalated_exactly_once[OF h1 h2 h3 h4 h5, of later_ops] h1 h2 h3 h4 h5 c
  show ?thesis by blast
qed

end
